theory Spec2Isabelle
  imports Main "HOL-Library.Word"
begin

section \<open>The graph builder of the optimizing compiler (art/compiler/optimizing/builder.cc)\<close>

text \<open>
  \<open>HGraphBuilder\<close> sequences four stages over one \<open>HGraph\<close>: the block builder, the
  dominator analysis, the instruction builder and the SSA builder. Only builder.cc is
  among the sources; the stages themselves, the compiler options and the debug-check
  macro live in files that are not. They enter the model as the fields of the record
  \<open>Collaborators\<close>: a statement about \<open>BuildGraph\<close>, \<open>SkipCompilation\<close> or
  \<open>BuildIntrinsicGraph\<close> holds for whatever those files contain, unless it names what it
  assumes of them.
\<close>

subsection \<open>Data\<close>

text \<open>
  Modelled from the spec: the enum \<open>GraphAnalysisResult\<close> is declared in nodes.h, which is
  missing. builder.cc names \<open>kAnalysisSkipped\<close>, \<open>kAnalysisInvalidBytecode\<close> and
  \<open>kAnalysisSuccess\<close>; the spec adds "a structural-failure variant identifying which
  stage failed", kept here as one constructor carrying the stage.
\<close>

datatype Stage =
  StageBlockBuilder
  | StageSkipCompilation
  | StageDominatorTree
  | StageInstructionBuilder
  | StageSsaBuilder

datatype GraphAnalysisResult =
  kAnalysisSkipped
  | kAnalysisInvalidBytecode
  | kAnalysisStructuralFailure Stage
  | kAnalysisSuccess

text \<open>
  The enum \<open>CompilerFilter::Filter\<close> (compiler_filter.h) is missing as well. builder.cc
  compares against \<open>kEverything\<close> only; every other member is \<open>kOtherFilter n\<close>.
\<close>

datatype Filter = kEverything | kOtherFilter nat

datatype MethodCompilationStat = kNotCompiledHugeMethod

text \<open>
  Value types as the spec lists them for an instruction's declared result: void,
  integer-like, float-like, reference, or not yet typed.
\<close>

datatype DataType = kVoid | kIntLike | kFloatLike | kReference | kAmbiguous

text \<open>A value reference: the instruction that defines the value, and the value's type.\<close>

record HValue =
  defined_by :: nat
  value_type :: DataType

text \<open>A phi: the vreg it merges, one input per predecessor in predecessor order, its type.\<close>

record HPhi =
  phi_vreg :: nat
  phi_inputs :: "HValue option list"
  phi_type :: DataType

text \<open>
  A basic block, with the fields of the spec's data model that the stages below read or
  write: its identifier, the identifiers of its predecessors and successors, whether the
  try/catch table names it as a handler, the vreg value array at the block's end, and the
  phis at its entry. Instructions, dominator-tree links and loop flags are left out: no
  statement below reads them.
\<close>

record HBasicBlock =
  block_id :: nat
  predecessors :: "nat list"
  successors :: "nat list"
  try_catch_handler :: bool
  locals_out :: "HValue option list"
  phis :: "HPhi list"

text \<open>The graph: vreg count, incoming-vreg count, the blocks in order, the entry block.\<close>

record HGraph =
  number_of_vregs :: nat
  number_of_in_vregs :: nat
  blocks :: "HBasicBlock list"
  entry_block :: "nat option"

text \<open>
  What builder.cc reads from \<open>CodeItemDebugInfoAccessor\<close>: \<open>RegistersSize\<close> and \<open>InsSize\<close>
  are \<open>uint16_t\<close>, \<open>InsnsSizeInCodeUnits\<close> is \<open>uint32_t\<close>.
\<close>

record CodeItemDebugInfoAccessor =
  HasCodeItem :: bool
  RegistersSize :: "16 word"
  InsSize :: "16 word"
  InsnsSizeInCodeUnits :: "32 word"

record CompilerOptions =
  GetCompilerFilter :: Filter
  huge_method_threshold :: nat

record CodeGenerator =
  GetCompilerOptions :: CompilerOptions

text \<open>
  The parts of the repository that builder.cc calls and that are not among the sources.
  A stage takes the graph and returns its outcome with the graph as it leaves it.
  \<open>kIsDebugBuild\<close> says whether \<open>DCHECK\<close> and \<open>DCHECK_EQ\<close> are compiled in.
\<close>

record Collaborators =
  kIsDebugBuild :: bool
  block_builder_Build :: "HGraph \<Rightarrow> bool \<times> HGraph"
  block_builder_BuildIntrinsic :: "HGraph \<Rightarrow> HGraph"
  BuildDominatorTree :: "HGraph \<Rightarrow> GraphAnalysisResult \<times> HGraph"
  instruction_builder_Build :: "HGraph \<Rightarrow> bool \<times> HGraph"
  instruction_builder_BuildIntrinsic :: "HGraph \<Rightarrow> HGraph"
  ssa_builder_BuildSsa :: "HGraph \<Rightarrow> GraphAnalysisResult \<times> HGraph"
  IsHugeMethod :: "CompilerOptions \<Rightarrow> nat \<Rightarrow> bool"

text \<open>
  The members of \<open>HGraphBuilder\<close>. \<open>code_generator\<close> is \<open>None\<close> for the null pointer.
  \<open>shorty\<close> is what \<open>dex_file_->GetMethodShorty(...)\<close> returns, without the terminating
  NUL; \<open>IsStatic\<close> is \<open>dex_compilation_unit_->IsStatic()\<close>.
\<close>

record HGraphBuilder =
  code_item_accessor :: CodeItemDebugInfoAccessor
  code_generator :: "CodeGenerator option"
  shorty :: string
  IsStatic :: bool
  collaborators :: Collaborators

text \<open>
  What a run changes: the graph, the statistics object (\<open>None\<close> for the null pointer
  \<open>compilation_stats_\<close>), and a log with one entry for each stage the run enters, in
  order, holding the graph handed to that stage.
\<close>

record BuildState =
  graph :: HGraph
  compilation_stats :: "MethodCompilationStat list option"
  stage_log :: "(Stage \<times> HGraph) list"

datatype Fault = DCheckFailed | ReadPastEndOfShorty

subsection \<open>The orchestrator\<close>

definition MaybeRecordStat :: "MethodCompilationStat \<Rightarrow> BuildState \<Rightarrow> BuildState" where
  "MaybeRecordStat stat s =
     (case compilation_stats s of
        None \<Rightarrow> s
      | Some recorded \<Rightarrow> s\<lparr>compilation_stats := Some (recorded @ [stat])\<rparr>)"

definition enter_stage :: "Stage \<Rightarrow> BuildState \<Rightarrow> BuildState" where
  "enter_stage st s = s\<lparr>stage_log := stage_log s @ [(st, graph s)]\<rparr>"

definition run_stage :: "Stage \<Rightarrow> (HGraph \<Rightarrow> 'r \<times> HGraph) \<Rightarrow> BuildState \<Rightarrow> 'r \<times> BuildState" where
  "run_stage st f s =
     (case f (graph s) of (r, g') \<Rightarrow> (r, (enter_stage st s)\<lparr>graph := g'\<rparr>))"

definition SetNumberOfVRegs :: "nat \<Rightarrow> BuildState \<Rightarrow> BuildState" where
  "SetNumberOfVRegs n s = s\<lparr>graph := (graph s)\<lparr>number_of_vregs := n\<rparr>\<rparr>"

definition SetNumberOfInVRegs :: "nat \<Rightarrow> BuildState \<Rightarrow> BuildState" where
  "SetNumberOfInVRegs n s = s\<lparr>graph := (graph s)\<lparr>number_of_in_vregs := n\<rparr>\<rparr>"

text \<open>\<open>HGraphBuilder::SkipCompilation\<close>, lines 66 to 88. The \<open>VLOG\<close> line is left out.\<close>

definition SkipCompilation :: "HGraphBuilder \<Rightarrow> BuildState \<Rightarrow> bool \<times> BuildState" where
  "SkipCompilation b s =
     (case code_generator b of
        None \<Rightarrow> (False, s)
      | Some cg \<Rightarrow>
          (let compiler_options = GetCompilerOptions cg;
               compiler_filter = GetCompilerFilter compiler_options
           in if compiler_filter = kEverything then (False, s)
              else
                (let code_units = InsnsSizeInCodeUnits (code_item_accessor b)
                 in if IsHugeMethod (collaborators b) compiler_options (unat code_units)
                    then (True, MaybeRecordStat kNotCompiledHugeMethod s)
                    else (False, s))))"

text \<open>
  \<open>HGraphBuilder::BuildGraph\<close>, lines 90 to 141. A failed \<open>DCHECK\<close> ends the run with a
  fault when debug checks are compiled in. The three local builder objects are constructed
  without touching the graph; their \<open>Build\<close> methods are the stages.
\<close>

definition BuildGraph ::
  "HGraphBuilder \<Rightarrow> BuildState \<Rightarrow> Fault + (GraphAnalysisResult \<times> BuildState)" where
  "BuildGraph b s =
     (let c = collaborators b in
      if kIsDebugBuild c \<and> \<not> HasCodeItem (code_item_accessor b) then Inl DCheckFailed
      else if kIsDebugBuild c \<and> blocks (graph s) \<noteq> [] then Inl DCheckFailed
      else
        (let s1 = SetNumberOfVRegs (unat (RegistersSize (code_item_accessor b))) s;
             s2 = SetNumberOfInVRegs (unat (InsSize (code_item_accessor b))) s1
         in case run_stage StageBlockBuilder (block_builder_Build c) s2 of
              (built, s3) \<Rightarrow>
                if \<not> built then Inr (kAnalysisInvalidBytecode, s3)
                else
                  (case SkipCompilation b (enter_stage StageSkipCompilation s3) of
                     (skip, s4) \<Rightarrow>
                       if skip then Inr (kAnalysisSkipped, s4)
                       else
                         (case run_stage StageDominatorTree (BuildDominatorTree c) s4 of
                            (result, s5) \<Rightarrow>
                              if result \<noteq> kAnalysisSuccess then Inr (result, s5)
                              else
                                (case run_stage StageInstructionBuilder
                                        (instruction_builder_Build c) s5 of
                                   (populated, s6) \<Rightarrow>
                                     if \<not> populated then Inr (kAnalysisInvalidBytecode, s6)
                                     else Inr (run_stage StageSsaBuilder
                                                 (ssa_builder_BuildSsa c) s6))))))"

text \<open>
  \<open>HGraphBuilder::BuildIntrinsicGraph\<close>, lines 143 to 195. \<open>strlen\<close> stops at the first
  NUL; \<open>shorty + 1\<close> of an empty shorty points past its terminator.
\<close>

definition strlen :: "string \<Rightarrow> nat" where
  "strlen cs = length (takeWhile (\<lambda>ch. ch \<noteq> CHR 0x00) cs)"

definition std_count :: "string \<Rightarrow> char \<Rightarrow> nat" where
  "std_count cs ch = length (filter (\<lambda>x. x = ch) cs)"

definition num_args :: "string \<Rightarrow> nat" where
  "num_args sh = strlen (tl sh)"

definition num_wide_args :: "string \<Rightarrow> nat" where
  "num_wide_args sh =
     std_count (take (num_args sh) (tl sh)) CHR ''J''
     + std_count (take (num_args sh) (tl sh)) CHR ''D''"

definition num_arg_vregs :: "HGraphBuilder \<Rightarrow> nat" where
  "num_arg_vregs b =
     num_args (shorty b) + num_wide_args (shorty b) + (if IsStatic b then 0 else 1)"

definition return_vregs :: nat where
  "return_vregs = 2"

definition BuildIntrinsicGraph :: "HGraphBuilder \<Rightarrow> BuildState \<Rightarrow> Fault + BuildState" where
  "BuildIntrinsicGraph b s =
     (let c = collaborators b in
      if kIsDebugBuild c \<and> HasCodeItem (code_item_accessor b) then Inl DCheckFailed
      else if kIsDebugBuild c \<and> blocks (graph s) \<noteq> [] then Inl DCheckFailed
      else if shorty b = [] then Inl ReadPastEndOfShorty
      else
        (let s1 = SetNumberOfVRegs (return_vregs + num_arg_vregs b) s;
             s2 = SetNumberOfInVRegs (num_arg_vregs b) s1
         in case run_stage StageBlockBuilder
                   (\<lambda>g. ((), block_builder_BuildIntrinsic c g)) s2 of
              (_, s3) \<Rightarrow>
                (case run_stage StageDominatorTree (BuildDominatorTree c) s3 of
                   (bdt_result, s4) \<Rightarrow>
                     if kIsDebugBuild c \<and> bdt_result \<noteq> kAnalysisSuccess then Inl DCheckFailed
                     else
                       (case run_stage StageInstructionBuilder
                               (\<lambda>g. ((), instruction_builder_BuildIntrinsic c g)) s4 of
                          (_, s5) \<Rightarrow>
                            (case run_stage StageSsaBuilder (ssa_builder_BuildSsa c) s5 of
                               (build_ssa_result, s6) \<Rightarrow>
                                 if kIsDebugBuild c \<and> build_ssa_result \<noteq> kAnalysisSuccess
                                 then Inl DCheckFailed
                                 else Inr s6)))))"

subsection \<open>The collaborators as the spec describes them\<close>

text \<open>
  Modelled from the spec: \<open>CompilerOptions::IsHugeMethod\<close> (compiler_options.h) is
  missing. The spec: a method "exceeds a configured size/complexity threshold"; "a method
  whose code size is exactly at the configured huge-method threshold is compiled; one
  unit above is Skipped".
\<close>

definition IsHugeMethod_spec :: "CompilerOptions \<Rightarrow> nat \<Rightarrow> bool" where
  "IsHugeMethod_spec compiler_options num_code_units =
     (huge_method_threshold compiler_options < num_code_units)"

text \<open>
  Modelled from the spec: \<open>HBasicBlockBuilder::BuildIntrinsic\<close> (block_builder.cc) is
  missing. The spec: the intrinsic-only mode "builds the minimal fixed skeleton (one entry
  block, one body block, one exit block) with no exception edges". A new block takes the
  next free identifier.
\<close>

definition new_block :: "nat \<Rightarrow> nat list \<Rightarrow> nat list \<Rightarrow> HBasicBlock" where
  "new_block i preds succs =
     \<lparr>block_id = i, predecessors = preds, successors = succs, try_catch_handler = False,
      locals_out = [], phis = []\<rparr>"

definition BuildIntrinsic_spec :: "HGraph \<Rightarrow> HGraph" where
  "BuildIntrinsic_spec g =
     (let n = length (blocks g)
      in g\<lparr>blocks := blocks g @
               [new_block n [] [n + 1],
                new_block (n + 1) [n] [n + 2],
                new_block (n + 2) [n + 1] []],
           entry_block := Some n\<rparr>)"

text \<open>
  Modelled from the spec: \<open>HGraph::BuildDominatorTree\<close> (nodes.cc) is missing. The spec:
  it removes the "blocks unreachable from entry" and "fails only if the skeleton is
  malformed in a way that prevents a well-defined dominator tree (e.g., entry with a
  predecessor, or a block not reachable from entry that is nonetheless required by the
  try/catch table) -- reported as a distinct structural-failure code". A graph without an
  entry block has no dominator tree either. The model gives the outcome and the blocks
  that remain; it does not compute the tree's parent links.
\<close>

definition find_block :: "HGraph \<Rightarrow> nat \<Rightarrow> HBasicBlock option" where
  "find_block g i = find (\<lambda>blk. block_id blk = i) (blocks g)"

definition successors_of :: "HGraph \<Rightarrow> nat \<Rightarrow> nat list" where
  "successors_of g i = (case find_block g i of None \<Rightarrow> [] | Some blk \<Rightarrow> successors blk)"

definition reach_step :: "HGraph \<Rightarrow> nat list \<Rightarrow> nat list" where
  "reach_step g visited = remdups (visited @ concat (map (successors_of g) visited))"

fun reach :: "HGraph \<Rightarrow> nat \<Rightarrow> nat list \<Rightarrow> nat list" where
  "reach g 0 visited = visited"
| "reach g (Suc fuel) visited = reach g fuel (reach_step g visited)"

definition reachable_blocks :: "HGraph \<Rightarrow> nat list" where
  "reachable_blocks g =
     (case entry_block g of
        None \<Rightarrow> []
      | Some e \<Rightarrow> reach g (length (blocks g)) [e])"

definition malformed_skeleton :: "HGraph \<Rightarrow> bool" where
  "malformed_skeleton g =
     (case entry_block g of
        None \<Rightarrow> True
      | Some e \<Rightarrow>
          (case find_block g e of
             None \<Rightarrow> True
           | Some blk \<Rightarrow>
               predecessors blk \<noteq> []
               \<or> list_ex (\<lambda>h. try_catch_handler h
                                 \<and> block_id h \<notin> set (reachable_blocks g)) (blocks g)))"

definition remove_dead_blocks :: "HGraph \<Rightarrow> HGraph" where
  "remove_dead_blocks g =
     (let live = reachable_blocks g
      in g\<lparr>blocks :=
             map (\<lambda>blk. blk\<lparr>predecessors := filter (\<lambda>p. p \<in> set live) (predecessors blk)\<rparr>)
                 (filter (\<lambda>blk. block_id blk \<in> set live) (blocks g))\<rparr>)"

definition BuildDominatorTree_spec :: "HGraph \<Rightarrow> GraphAnalysisResult \<times> HGraph" where
  "BuildDominatorTree_spec g =
     (if malformed_skeleton g then (kAnalysisStructuralFailure StageDominatorTree, g)
      else (kAnalysisSuccess, remove_dead_blocks g))"

text \<open>
  Modelled from the spec: \<open>SsaBuilder::BuildSsa\<close> (ssa_builder.cc) is missing. The spec:
  it makes "phi nodes at every block with \<ge>2 predecessors where incoming values differ",
  one input per predecessor in predecessor order; "a value is reference-typed if any
  contributing definition is reference-typed"; "mixing reference and primitive inputs
  into the same phi after resolution is invalid-bytecode"; "if a phi remains ambiguous
  after the fixpoint (contradictory forced types on the same value), report
  invalid-bytecode". The type of a value in a block's vreg array is its type after the
  resolution by uses, which the model does not redo. A phi is made only where the incoming
  values differ, so none is left for the removal of redundant phis.
\<close>

definition local_at_end :: "HGraph \<Rightarrow> nat \<Rightarrow> nat \<Rightarrow> HValue option" where
  "local_at_end g p v =
     (case find_block g p of
        None \<Rightarrow> None
      | Some blk \<Rightarrow> if v < length (locals_out blk) then locals_out blk ! v else None)"

definition incoming_values :: "HGraph \<Rightarrow> HBasicBlock \<Rightarrow> nat \<Rightarrow> HValue option list" where
  "incoming_values g blk v = map (\<lambda>p. local_at_end g p v) (predecessors blk)"

definition values_differ :: "HValue option list \<Rightarrow> bool" where
  "values_differ vs = list_ex (\<lambda>x. x \<noteq> hd vs) vs"

definition input_types :: "HValue option list \<Rightarrow> DataType list" where
  "input_types vs = map value_type (List.map_filter id vs)"

definition is_primitive :: "DataType \<Rightarrow> bool" where
  "is_primitive t = (t = kIntLike \<or> t = kFloatLike)"

definition resolve_phi_type :: "HValue option list \<Rightarrow> DataType" where
  "resolve_phi_type vs =
     (let ts = filter (\<lambda>t. t \<noteq> kAmbiguous) (input_types vs)
      in if kReference \<in> set ts then kReference
         else if ts \<noteq> [] \<and> list_all (\<lambda>t. t = hd ts) ts then hd ts
         else kAmbiguous)"

definition make_phis :: "HGraph \<Rightarrow> HBasicBlock \<Rightarrow> HPhi list" where
  "make_phis g blk =
     (if 2 \<le> length (predecessors blk)
      then map (\<lambda>v. \<lparr>phi_vreg = v,
                      phi_inputs = incoming_values g blk v,
                      phi_type = resolve_phi_type (incoming_values g blk v)\<rparr>)
               (filter (\<lambda>v. values_differ (incoming_values g blk v))
                       [0..<number_of_vregs g])
      else [])"

definition mixes_reference_and_primitive :: "HPhi \<Rightarrow> bool" where
  "mixes_reference_and_primitive phi =
     (kReference \<in> set (input_types (phi_inputs phi))
      \<and> list_ex is_primitive (input_types (phi_inputs phi)))"

definition invalid_phi :: "HPhi \<Rightarrow> bool" where
  "invalid_phi phi = (mixes_reference_and_primitive phi \<or> phi_type phi = kAmbiguous)"

definition BuildSsa_spec :: "HGraph \<Rightarrow> GraphAnalysisResult \<times> HGraph" where
  "BuildSsa_spec g =
     (let g' = g\<lparr>blocks := map (\<lambda>blk. blk\<lparr>phis := make_phis g blk\<rparr>) (blocks g)\<rparr>
      in if list_ex (\<lambda>blk. list_ex invalid_phi (phis blk)) (blocks g')
         then (kAnalysisInvalidBytecode, g')
         else (kAnalysisSuccess, g'))"

subsection \<open>Conditions on the stages, and the order of the pipeline\<close>

text \<open>The five numbered steps of \<open>BuildGraph\<close>, in the order of the source.\<close>

definition pipeline_order :: "Stage list" where
  "pipeline_order =
     [StageBlockBuilder, StageSkipCompilation, StageDominatorTree, StageInstructionBuilder,
      StageSsaBuilder]"

text \<open>A stage that does not write the graph's two vreg counts.\<close>

definition keeps_vregs :: "(HGraph \<Rightarrow> 'r \<times> HGraph) \<Rightarrow> bool" where
  "keeps_vregs f =
     (\<forall>g. number_of_vregs (snd (f g)) = number_of_vregs g
          \<and> number_of_in_vregs (snd (f g)) = number_of_in_vregs g)"

text \<open>The skeleton of a graph: the blocks with their edges, and the entry block.\<close>

definition skeleton_of :: "HGraph \<Rightarrow> (nat \<times> nat list \<times> nat list) list \<times> nat option" where
  "skeleton_of g =
     (map (\<lambda>blk. (block_id blk, predecessors blk, successors blk)) (blocks g), entry_block g)"

text \<open>
  A stage that fills blocks in and adds or removes no block and no edge, and does not
  write the vreg counts: what the spec asks of the instruction materializer, which
  translates "each block's instruction slice" of a skeleton it is given.
\<close>

definition keeps_skeleton :: "(HGraph \<Rightarrow> HGraph) \<Rightarrow> bool" where
  "keeps_skeleton f =
     (\<forall>g. skeleton_of (f g) = skeleton_of g
          \<and> number_of_vregs (f g) = number_of_vregs g
          \<and> number_of_in_vregs (f g) = number_of_in_vregs g)"

text \<open>
  The layout in the spec's words: a wide argument (shorty \<open>J\<close> or \<open>D\<close>) occupies two vreg
  slots, any other argument one.
\<close>

definition vreg_slots_spec :: "char \<Rightarrow> nat" where
  "vreg_slots_spec ch = (if ch = CHR ''J'' \<or> ch = CHR ''D'' then 2 else 1)"

subsection \<open>Concrete runs\<close>

text \<open>
  Stages with fixed outcomes: the block builder leaves the blocks \<open>bs\<close> with entry 0, the
  other stages leave the graph as it is.
\<close>

definition stub_stages ::
  "bool \<Rightarrow> bool \<Rightarrow> HBasicBlock list \<Rightarrow> GraphAnalysisResult \<Rightarrow> bool \<Rightarrow> GraphAnalysisResult
     \<Rightarrow> Collaborators" where
  "stub_stages debug built bs dom_result populated ssa_result =
     \<lparr>kIsDebugBuild = debug,
      block_builder_Build = (\<lambda>g. (built, g\<lparr>blocks := bs, entry_block := Some 0\<rparr>)),
      block_builder_BuildIntrinsic = BuildIntrinsic_spec,
      BuildDominatorTree = (\<lambda>g. (dom_result, g)),
      instruction_builder_Build = (\<lambda>g. (populated, g)),
      instruction_builder_BuildIntrinsic = (\<lambda>g. g),
      ssa_builder_BuildSsa = (\<lambda>g. (ssa_result, g)),
      IsHugeMethod = IsHugeMethod_spec\<rparr>"

text \<open>
  A method with a code item of 4 registers, 2 of them incoming, and the given number of
  code units, compiled with a code generator whose huge-method threshold is 10.
\<close>

definition example_builder :: "32 word \<Rightarrow> Collaborators \<Rightarrow> HGraphBuilder" where
  "example_builder code_units c =
     \<lparr>code_item_accessor =
        \<lparr>HasCodeItem = True, RegistersSize = 4, InsSize = 2,
         InsnsSizeInCodeUnits = code_units\<rparr>,
      code_generator =
        Some \<lparr>GetCompilerOptions =
                \<lparr>GetCompilerFilter = kOtherFilter 0, huge_method_threshold = 10\<rparr>\<rparr>,
      shorty = ''III'',
      IsStatic = False,
      collaborators = c\<rparr>"

definition fresh_state :: BuildState where
  "fresh_state =
     \<lparr>graph = \<lparr>number_of_vregs = 0, number_of_in_vregs = 0, blocks = [], entry_block = None\<rparr>,
      compilation_stats = Some [],
      stage_log = []\<rparr>"

text \<open>
  A diamond: block 0 branches to blocks 1 and 2, which meet in block 3. At its end block 1
  holds a reference in vreg 0 and block 2 an integer.
\<close>

definition diamond_blocks :: "HBasicBlock list" where
  "diamond_blocks =
     [(new_block 0 [] [1, 2])\<lparr>locals_out := [None]\<rparr>,
      (new_block 1 [0] [3])\<lparr>locals_out := [Some \<lparr>defined_by = 1, value_type = kReference\<rparr>]\<rparr>,
      (new_block 2 [0] [3])\<lparr>locals_out := [Some \<lparr>defined_by = 2, value_type = kIntLike\<rparr>]\<rparr>,
      (new_block 3 [1, 2] [])\<lparr>locals_out := [None]\<rparr>]"

definition diamond_graph :: HGraph where
  "diamond_graph =
     \<lparr>number_of_vregs = 4, number_of_in_vregs = 2, blocks = diamond_blocks,
      entry_block = Some 0\<rparr>"

definition diamond_builder :: HGraphBuilder where
  "diamond_builder =
     example_builder 10
       ((stub_stages True True diamond_blocks kAnalysisSuccess True kAnalysisSuccess)
          \<lparr>ssa_builder_BuildSsa := BuildSsa_spec\<rparr>)"

text \<open>
  An intrinsic: no code item, no code generator, signature \<open>(II)I\<close>, not static, built
  with the stages as the spec describes them.
\<close>

definition intrinsic_builder :: "bool \<Rightarrow> HGraphBuilder" where
  "intrinsic_builder debug =
     \<lparr>code_item_accessor =
        \<lparr>HasCodeItem = False, RegistersSize = 0, InsSize = 0, InsnsSizeInCodeUnits = 0\<rparr>,
      code_generator = None,
      shorty = ''III'',
      IsStatic = False,
      collaborators =
        (stub_stages debug True [] kAnalysisSuccess True kAnalysisSuccess)
          \<lparr>BuildDominatorTree := BuildDominatorTree_spec,
           ssa_builder_BuildSsa := BuildSsa_spec\<rparr>\<rparr>"

section \<open>Properties\<close>

subsection \<open>What each step does to the state\<close>

lemma SkipCompilation_log: "stage_log (snd (SkipCompilation b s)) = stage_log s"
  by (simp add: SkipCompilation_def MaybeRecordStat_def Let_def split: option.splits)

lemma SkipCompilation_graph: "graph (snd (SkipCompilation b s)) = graph s"
  by (simp add: SkipCompilation_def MaybeRecordStat_def Let_def split: option.splits)

lemma SkipCompilation_decision: "fst (SkipCompilation b s) = fst (SkipCompilation b s0)"
  by (simp add: SkipCompilation_def MaybeRecordStat_def Let_def split: option.splits)

lemma run_stage_fst: "fst (run_stage st f s) = fst (f (graph s))"
  by (simp add: run_stage_def case_prod_beta)

lemma run_stage_graph: "graph (snd (run_stage st f s)) = snd (f (graph s))"
  by (simp add: run_stage_def case_prod_beta enter_stage_def)

lemma run_stage_log: "stage_log (snd (run_stage st f s)) = stage_log s @ [(st, graph s)]"
  by (simp add: run_stage_def case_prod_beta enter_stage_def)

lemma enter_stage_graph: "graph (enter_stage st s) = graph s"
  by (simp add: enter_stage_def)

lemma enter_stage_log: "stage_log (enter_stage st s) = stage_log s @ [(st, graph s)]"
  by (simp add: enter_stage_def)

lemma SetNumber_graph:
  "graph (SetNumberOfInVRegs n (SetNumberOfVRegs m s)) =
     (graph s)\<lparr>number_of_vregs := m, number_of_in_vregs := n\<rparr>"
  by (simp add: SetNumberOfInVRegs_def SetNumberOfVRegs_def)

lemma SetNumber_log:
  "stage_log (SetNumberOfInVRegs n (SetNumberOfVRegs m s)) = stage_log s"
  by (simp add: SetNumberOfInVRegs_def SetNumberOfVRegs_def)

lemmas stage_simps = run_stage_fst run_stage_graph run_stage_log enter_stage_graph
  enter_stage_log SetNumber_graph SetNumber_log SkipCompilation_log SkipCompilation_graph

text \<open>
  A run of \<open>BuildGraph\<close> whose debug checks pass: the result code, the graph it leaves and
  the stages it enters, by the outcomes of the stages.
\<close>

lemma BuildGraph_outcome:
  fixes b :: HGraphBuilder and s :: BuildState
  defines "c \<equiv> collaborators b"
  defines "g0 \<equiv> (graph s)\<lparr>number_of_vregs := unat (RegistersSize (code_item_accessor b)),
                           number_of_in_vregs := unat (InsSize (code_item_accessor b))\<rparr>"
  defines "g1 \<equiv> snd (block_builder_Build c g0)"
  defines "g2 \<equiv> snd (BuildDominatorTree c g1)"
  defines "g3 \<equiv> snd (instruction_builder_Build c g2)"
  defines "g4 \<equiv> snd (ssa_builder_BuildSsa c g3)"
  assumes pre: "kIsDebugBuild c \<longrightarrow> HasCodeItem (code_item_accessor b) \<and> blocks (graph s) = []"
  shows "\<exists>s'. BuildGraph b s =
           Inr (if \<not> fst (block_builder_Build c g0) then kAnalysisInvalidBytecode
                else if fst (SkipCompilation b s) then kAnalysisSkipped
                else if fst (BuildDominatorTree c g1) \<noteq> kAnalysisSuccess
                  then fst (BuildDominatorTree c g1)
                else if \<not> fst (instruction_builder_Build c g2) then kAnalysisInvalidBytecode
                else fst (ssa_builder_BuildSsa c g3), s') \<and>
           graph s' =
               (if \<not> fst (block_builder_Build c g0) \<or> fst (SkipCompilation b s) then g1
                else if fst (BuildDominatorTree c g1) \<noteq> kAnalysisSuccess then g2
                else if \<not> fst (instruction_builder_Build c g2) then g3
                else g4) \<and>
           stage_log s' = stage_log s @
               (if \<not> fst (block_builder_Build c g0) then [(StageBlockBuilder, g0)]
                else if fst (SkipCompilation b s)
                  then [(StageBlockBuilder, g0), (StageSkipCompilation, g1)]
                else if fst (BuildDominatorTree c g1) \<noteq> kAnalysisSuccess
                  then [(StageBlockBuilder, g0), (StageSkipCompilation, g1),
                        (StageDominatorTree, g1)]
                else if \<not> fst (instruction_builder_Build c g2)
                  then [(StageBlockBuilder, g0), (StageSkipCompilation, g1),
                        (StageDominatorTree, g1), (StageInstructionBuilder, g2)]
                else [(StageBlockBuilder, g0), (StageSkipCompilation, g1),
                      (StageDominatorTree, g1), (StageInstructionBuilder, g2),
                      (StageSsaBuilder, g3)])"
proof -
  let ?s2 = "SetNumberOfInVRegs (unat (InsSize (code_item_accessor b)))
               (SetNumberOfVRegs (unat (RegistersSize (code_item_accessor b))) s)"
  let ?s3 = "enter_stage StageSkipCompilation
               (snd (run_stage StageBlockBuilder (block_builder_Build c) ?s2))"
  have sk: "fst (SkipCompilation b ?s3) = fst (SkipCompilation b s)"
    by (rule SkipCompilation_decision)
  show ?thesis
    using pre unfolding BuildGraph_def Let_def case_prod_beta c_def[symmetric]
    by (auto simp: sk stage_simps g0_def g1_def g2_def g3_def g4_def prod_eq_iff)
qed

lemma BuildGraph_Inr_pre:
  "BuildGraph b s = Inr x \<Longrightarrow>
     kIsDebugBuild (collaborators b) \<longrightarrow> HasCodeItem (code_item_accessor b) \<and> blocks (graph s) = []"
  by (auto simp: BuildGraph_def Let_def split: if_splits)

subsection \<open>The result code of \<open>BuildGraph\<close>\<close>

text \<open>
  C1. Whenever the debug checks at its head pass, \<open>BuildGraph\<close> returns a result code to
  its caller, and the code is: \<open>kAnalysisInvalidBytecode\<close> if the block builder fails;
  else \<open>kAnalysisSkipped\<close> if \<open>SkipCompilation\<close> says so; else the code of the dominator
  analysis, unchanged, if that is not \<open>kAnalysisSuccess\<close>; else \<open>kAnalysisInvalidBytecode\<close>
  if the instruction builder fails; else the code of the SSA builder. So the result is
  \<open>kAnalysisSuccess\<close> only if all four stages succeeded and the method was not skipped.
\<close>

theorem BuildGraph_result_code:
  fixes b :: HGraphBuilder and s :: BuildState
  defines "c \<equiv> collaborators b"
  defines "g0 \<equiv> (graph s)\<lparr>number_of_vregs := unat (RegistersSize (code_item_accessor b)),
                           number_of_in_vregs := unat (InsSize (code_item_accessor b))\<rparr>"
  defines "g1 \<equiv> snd (block_builder_Build c g0)"
  defines "g2 \<equiv> snd (BuildDominatorTree c g1)"
  defines "g3 \<equiv> snd (instruction_builder_Build c g2)"
  assumes pre: "kIsDebugBuild c \<longrightarrow> HasCodeItem (code_item_accessor b) \<and> blocks (graph s) = []"
  shows "\<exists>r s'. BuildGraph b s = Inr (r, s') \<and>
           r = (if \<not> fst (block_builder_Build c g0) then kAnalysisInvalidBytecode
                else if fst (SkipCompilation b s) then kAnalysisSkipped
                else if fst (BuildDominatorTree c g1) \<noteq> kAnalysisSuccess
                  then fst (BuildDominatorTree c g1)
                else if \<not> fst (instruction_builder_Build c g2) then kAnalysisInvalidBytecode
                else fst (ssa_builder_BuildSsa c g3)) \<and>
           (r = kAnalysisSuccess \<longrightarrow>
              fst (block_builder_Build c g0) \<and> \<not> fst (SkipCompilation b s) \<and>
              fst (BuildDominatorTree c g1) = kAnalysisSuccess \<and>
              fst (instruction_builder_Build c g2) \<and>
              fst (ssa_builder_BuildSsa c g3) = kAnalysisSuccess)"
proof -
  from pre obtain s' where
    "BuildGraph b s =
       Inr (if \<not> fst (block_builder_Build c g0) then kAnalysisInvalidBytecode
            else if fst (SkipCompilation b s) then kAnalysisSkipped
            else if fst (BuildDominatorTree c g1) \<noteq> kAnalysisSuccess
              then fst (BuildDominatorTree c g1)
            else if \<not> fst (instruction_builder_Build c g2) then kAnalysisInvalidBytecode
            else fst (ssa_builder_BuildSsa c g3), s')"
    using BuildGraph_outcome [of b s] unfolding c_def g0_def g1_def g2_def g3_def by blast
  then show ?thesis
    by (auto split: if_splits)
qed

theorem BuildGraph_result_code_witness:
  "HasCodeItem (code_item_accessor
      (example_builder 10 (stub_stages True True [] kAnalysisSuccess True kAnalysisSuccess)))
   \<and> blocks (graph fresh_state) = []
   \<and> (\<exists>s'. BuildGraph
              (example_builder 10 (stub_stages True True [] kAnalysisSuccess True kAnalysisSuccess))
              fresh_state = Inr (kAnalysisSuccess, s'))
   \<and> (\<exists>s'. BuildGraph
              (example_builder 10
                 (stub_stages True True [] (kAnalysisStructuralFailure StageDominatorTree) True
                    kAnalysisSuccess))
              fresh_state = Inr (kAnalysisStructuralFailure StageDominatorTree, s'))"
  using BuildGraph_result_code
    [of "example_builder 10 (stub_stages True True [] kAnalysisSuccess True kAnalysisSuccess)"
        fresh_state]
    BuildGraph_result_code
    [of "example_builder 10
           (stub_stages True True [] (kAnalysisStructuralFailure StageDominatorTree) True
              kAnalysisSuccess)"
        fresh_state]
  by (simp add: example_builder_def stub_stages_def fresh_state_def SkipCompilation_def
      IsHugeMethod_spec_def)

subsection \<open>Where the skip decision sits\<close>

text \<open>
  C2. In a run of \<open>BuildGraph\<close> that returns, the stages entered are an initial stretch of
  the pipeline order, so the skip decision comes after the block builder and before the
  dominator analysis, and it is taken only when the block builder succeeded. When
  \<open>SkipCompilation\<close> says to skip, the result is \<open>kAnalysisSkipped\<close> and the run stops
  there: no dominator analysis, no instruction builder, no SSA builder. Since the
  dominator analysis and the SSA builder report failures of their own and never
  \<open>kAnalysisSkipped\<close>, a result of \<open>kAnalysisSkipped\<close> always means that the run
  stopped at the skip decision.
\<close>

theorem skip_decision_position:
  fixes b :: HGraphBuilder and s s' :: BuildState and r :: GraphAnalysisResult
  defines "c \<equiv> collaborators b"
  defines "g0 \<equiv> (graph s)\<lparr>number_of_vregs := unat (RegistersSize (code_item_accessor b)),
                           number_of_in_vregs := unat (InsSize (code_item_accessor b))\<rparr>"
  assumes run: "BuildGraph b s = Inr (r, s')"
  shows "\<exists>new. stage_log s' = stage_log s @ new \<and>
           map fst new = take (length new) pipeline_order \<and>
           (StageSkipCompilation \<in> set (map fst new) \<longrightarrow> fst (block_builder_Build c g0)) \<and>
           (fst (block_builder_Build c g0) \<and> fst (SkipCompilation b s) \<longrightarrow>
              r = kAnalysisSkipped \<and>
              map fst new = [StageBlockBuilder, StageSkipCompilation]) \<and>
           ((\<forall>g. fst (BuildDominatorTree c g) \<noteq> kAnalysisSkipped) \<and>
            (\<forall>g. fst (ssa_builder_BuildSsa c g) \<noteq> kAnalysisSkipped) \<and>
            r = kAnalysisSkipped \<longrightarrow>
              map fst new = [StageBlockBuilder, StageSkipCompilation])"
proof -
  have pre: "kIsDebugBuild (collaborators b) \<longrightarrow>
               HasCodeItem (code_item_accessor b) \<and> blocks (graph s) = []"
    using run by (rule BuildGraph_Inr_pre)
  from BuildGraph_outcome [OF pre] run show ?thesis
    unfolding c_def g0_def pipeline_order_def
    by (auto split: if_splits)
qed

theorem skip_decision_position_witness:
  "BuildGraph (example_builder 11 (stub_stages True True [] kAnalysisSuccess True kAnalysisSuccess))
     fresh_state =
     Inr (kAnalysisSkipped,
          fresh_state\<lparr>graph := (graph fresh_state)\<lparr>number_of_vregs := 4, number_of_in_vregs := 2,
                                               entry_block := Some 0\<rparr>,
                      compilation_stats := Some [kNotCompiledHugeMethod],
                      stage_log :=
                        [(StageBlockBuilder,
                          (graph fresh_state)\<lparr>number_of_vregs := 4, number_of_in_vregs := 2\<rparr>),
                         (StageSkipCompilation,
                          (graph fresh_state)\<lparr>number_of_vregs := 4, number_of_in_vregs := 2,
                                               entry_block := Some 0\<rparr>)]\<rparr>)
   \<and> (\<forall>g. fst (BuildDominatorTree
                  (stub_stages True True [] kAnalysisSuccess True kAnalysisSuccess) g)
            \<noteq> kAnalysisSkipped)
   \<and> (\<forall>g. fst (ssa_builder_BuildSsa
                  (stub_stages True True [] kAnalysisSuccess True kAnalysisSuccess) g)
            \<noteq> kAnalysisSkipped)
   \<and> fst (block_builder_Build
            (stub_stages True True [] kAnalysisSuccess True kAnalysisSuccess)
            ((graph fresh_state)\<lparr>number_of_vregs := 4, number_of_in_vregs := 2\<rparr>))
   \<and> fst (SkipCompilation
            (example_builder 11 (stub_stages True True [] kAnalysisSuccess True kAnalysisSuccess))
            fresh_state)
   \<and> map fst
        [(StageBlockBuilder,
          (graph fresh_state)\<lparr>number_of_vregs := 4, number_of_in_vregs := 2\<rparr>),
         (StageSkipCompilation,
          (graph fresh_state)\<lparr>number_of_vregs := 4, number_of_in_vregs := 2,
                               entry_block := Some 0\<rparr>)]
       = take 2 pipeline_order"
  using skip_decision_position
    [of "example_builder 11 (stub_stages True True [] kAnalysisSuccess True kAnalysisSuccess)"
        fresh_state kAnalysisSkipped]
  by (simp add: example_builder_def stub_stages_def fresh_state_def SkipCompilation_def
      IsHugeMethod_spec_def BuildGraph_def Let_def run_stage_def enter_stage_def
      SetNumberOfVRegs_def SetNumberOfInVRegs_def MaybeRecordStat_def pipeline_order_def)

subsection \<open>A failing block builder\<close>

text \<open>
  C3. When the block builder fails, \<open>BuildGraph\<close> returns \<open>kAnalysisInvalidBytecode\<close>
  at once: the block builder is the only stage entered, the statistics are untouched, and
  the graph is as the block builder left it. The skip decision, the dominator analysis, the
  instruction builder and the SSA builder do not run.
\<close>

theorem invalid_bytecode_from_block_builder:
  fixes b :: HGraphBuilder and s :: BuildState
  defines "c \<equiv> collaborators b"
  defines "g0 \<equiv> (graph s)\<lparr>number_of_vregs := unat (RegistersSize (code_item_accessor b)),
                           number_of_in_vregs := unat (InsSize (code_item_accessor b))\<rparr>"
  assumes pre: "kIsDebugBuild c \<longrightarrow> HasCodeItem (code_item_accessor b) \<and> blocks (graph s) = []"
    and fails: "\<not> fst (block_builder_Build c g0)"
  shows "BuildGraph b s =
           Inr (kAnalysisInvalidBytecode,
                s\<lparr>graph := snd (block_builder_Build c g0),
                  stage_log := stage_log s @ [(StageBlockBuilder, g0)]\<rparr>)"
  using pre fails unfolding BuildGraph_def Let_def case_prod_beta c_def[symmetric]
  by (simp add: run_stage_def enter_stage_def SetNumberOfVRegs_def SetNumberOfInVRegs_def
      case_prod_beta g0_def)

theorem invalid_bytecode_from_block_builder_witness:
  "HasCodeItem (code_item_accessor
      (example_builder 11 (stub_stages True False [] kAnalysisSuccess True kAnalysisSuccess)))
   \<and> blocks (graph fresh_state) = []
   \<and> BuildGraph (example_builder 11 (stub_stages True False [] kAnalysisSuccess True kAnalysisSuccess))
       fresh_state =
       Inr (kAnalysisInvalidBytecode,
            fresh_state\<lparr>graph := (graph fresh_state)\<lparr>number_of_vregs := 4, number_of_in_vregs := 2,
                                                 entry_block := Some 0\<rparr>,
                        stage_log :=
                          [(StageBlockBuilder,
                            (graph fresh_state)\<lparr>number_of_vregs := 4,
                                                 number_of_in_vregs := 2\<rparr>)]\<rparr>)"
  using invalid_bytecode_from_block_builder
    [of "example_builder 11 (stub_stages True False [] kAnalysisSuccess True kAnalysisSuccess)"
        fresh_state]
  by (simp add: example_builder_def stub_stages_def fresh_state_def)

subsection \<open>The vreg counts\<close>

text \<open>
  C8. \<open>BuildGraph\<close> writes \<open>RegistersSize\<close> and \<open>InsSize\<close> of the code item into the
  graph before it enters the first stage, and never writes the two fields again: with
  stages that leave the two fields alone, every stage of the run sees them set, and the
  graph still holds them when the run returns, whatever the result code.
\<close>

theorem vregs_recorded_before_stages:
  fixes b :: HGraphBuilder and s s' :: BuildState and r :: GraphAnalysisResult
  defines "c \<equiv> collaborators b"
  defines "nv \<equiv> unat (RegistersSize (code_item_accessor b))"
  defines "ni \<equiv> unat (InsSize (code_item_accessor b))"
  assumes run: "BuildGraph b s = Inr (r, s')"
    and keeps: "keeps_vregs (block_builder_Build c)" "keeps_vregs (BuildDominatorTree c)"
      "keeps_vregs (instruction_builder_Build c)" "keeps_vregs (ssa_builder_BuildSsa c)"
  shows "\<exists>rest. stage_log s' =
             stage_log s @
             (StageBlockBuilder, (graph s)\<lparr>number_of_vregs := nv, number_of_in_vregs := ni\<rparr>) # rest
           \<and> (\<forall>e \<in> set rest. number_of_vregs (snd e) = nv \<and> number_of_in_vregs (snd e) = ni)
           \<and> number_of_vregs (graph s') = nv \<and> number_of_in_vregs (graph s') = ni"
proof -
  have pre: "kIsDebugBuild (collaborators b) \<longrightarrow>
               HasCodeItem (code_item_accessor b) \<and> blocks (graph s) = []"
    using run by (rule BuildGraph_Inr_pre)
  from BuildGraph_outcome [OF pre] run keeps show ?thesis
    unfolding c_def nv_def ni_def keeps_vregs_def
    by (auto split: if_splits)
qed

theorem vregs_recorded_before_stages_witness:
  "BuildGraph (example_builder 11 (stub_stages True True [] kAnalysisSuccess True kAnalysisSuccess))
     fresh_state =
     Inr (kAnalysisSkipped,
          fresh_state\<lparr>graph := (graph fresh_state)\<lparr>number_of_vregs := 4, number_of_in_vregs := 2,
                                               entry_block := Some 0\<rparr>,
                      compilation_stats := Some [kNotCompiledHugeMethod],
                      stage_log :=
                        [(StageBlockBuilder,
                          (graph fresh_state)\<lparr>number_of_vregs := 4, number_of_in_vregs := 2\<rparr>),
                         (StageSkipCompilation,
                          (graph fresh_state)\<lparr>number_of_vregs := 4, number_of_in_vregs := 2,
                                               entry_block := Some 0\<rparr>)]\<rparr>)
   \<and> keeps_vregs (block_builder_Build
        (stub_stages True True [] kAnalysisSuccess True kAnalysisSuccess))
   \<and> keeps_vregs (BuildDominatorTree
        (stub_stages True True [] kAnalysisSuccess True kAnalysisSuccess))
   \<and> keeps_vregs (instruction_builder_Build
        (stub_stages True True [] kAnalysisSuccess True kAnalysisSuccess))
   \<and> keeps_vregs (ssa_builder_BuildSsa
        (stub_stages True True [] kAnalysisSuccess True kAnalysisSuccess))
   \<and> number_of_vregs (graph fresh_state\<lparr>number_of_vregs := 4, number_of_in_vregs := 2,
                                          entry_block := Some 0\<rparr>) = 4
   \<and> number_of_in_vregs (graph fresh_state\<lparr>number_of_vregs := 4, number_of_in_vregs := 2,
                                          entry_block := Some 0\<rparr>) = 2"
  using vregs_recorded_before_stages
    [of "example_builder 11 (stub_stages True True [] kAnalysisSuccess True kAnalysisSuccess)"
        fresh_state kAnalysisSkipped]
  by (simp add: example_builder_def stub_stages_def fresh_state_def SkipCompilation_def
      IsHugeMethod_spec_def BuildGraph_def Let_def run_stage_def enter_stage_def
      SetNumberOfVRegs_def SetNumberOfInVRegs_def MaybeRecordStat_def keeps_vregs_def)

subsection \<open>The skip policy\<close>

text \<open>
  C9. \<open>SkipCompilation\<close> returns false and changes nothing when there is no code
  generator or when the compiler filter is \<open>kEverything\<close>, whatever the code size and
  whatever \<open>IsHugeMethod\<close> would say. Only with a code generator and another filter does
  the answer of \<open>IsHugeMethod\<close> on the number of code units decide.
\<close>

theorem SkipCompilation_without_codegen_or_with_everything:
  "(code_generator b = None
      \<or> (\<exists>cg. code_generator b = Some cg
               \<and> GetCompilerFilter (GetCompilerOptions cg) = kEverything)
      \<longrightarrow> SkipCompilation b s = (False, s))
   \<and> (\<forall>cg. code_generator b = Some cg
            \<and> GetCompilerFilter (GetCompilerOptions cg) \<noteq> kEverything
        \<longrightarrow> SkipCompilation b s =
              (if IsHugeMethod (collaborators b) (GetCompilerOptions cg)
                    (unat (InsnsSizeInCodeUnits (code_item_accessor b)))
               then (True, MaybeRecordStat kNotCompiledHugeMethod s)
               else (False, s)))"
  by (auto simp: SkipCompilation_def Let_def)

theorem SkipCompilation_without_codegen_or_with_everything_witness:
  "code_generator
     ((example_builder 4000 (stub_stages True True [] kAnalysisSuccess True kAnalysisSuccess))
        \<lparr>code_generator := None\<rparr>) = None
   \<and> SkipCompilation
       ((example_builder 4000 (stub_stages True True [] kAnalysisSuccess True kAnalysisSuccess))
          \<lparr>code_generator := None\<rparr>) fresh_state = (False, fresh_state)
   \<and> SkipCompilation
       ((example_builder 4000 (stub_stages True True [] kAnalysisSuccess True kAnalysisSuccess))
          \<lparr>code_generator :=
             Some \<lparr>GetCompilerOptions =
                     \<lparr>GetCompilerFilter = kEverything, huge_method_threshold = 10\<rparr>\<rparr>\<rparr>)
       fresh_state = (False, fresh_state)
   \<and> SkipCompilation
       (example_builder 4000 (stub_stages True True [] kAnalysisSuccess True kAnalysisSuccess))
       fresh_state = (True, fresh_state\<lparr>compilation_stats := Some [kNotCompiledHugeMethod]\<rparr>)"
  using SkipCompilation_without_codegen_or_with_everything
    [of "(example_builder 4000 (stub_stages True True [] kAnalysisSuccess True kAnalysisSuccess))
           \<lparr>code_generator := None\<rparr>" fresh_state]
    SkipCompilation_without_codegen_or_with_everything
    [of "(example_builder 4000 (stub_stages True True [] kAnalysisSuccess True kAnalysisSuccess))
           \<lparr>code_generator :=
              Some \<lparr>GetCompilerOptions =
                      \<lparr>GetCompilerFilter = kEverything, huge_method_threshold = 10\<rparr>\<rparr>\<rparr>"
        fresh_state]
    SkipCompilation_without_codegen_or_with_everything
    [of "example_builder 4000 (stub_stages True True [] kAnalysisSuccess True kAnalysisSuccess)"
        fresh_state]
  by (simp add: example_builder_def stub_stages_def IsHugeMethod_spec_def MaybeRecordStat_def
      fresh_state_def)

text \<open>
  C7, as amended. With a code generator, a compiler filter other than \<open>kEverything\<close> and
  \<open>IsHugeMethod\<close> as the spec describes it: a method whose code size is exactly the
  huge-method threshold is not skipped, and once its blocks are built the run goes on to
  the dominator analysis; a method one code unit above the threshold whose blocks are
  built yields \<open>kAnalysisSkipped\<close>. The claim as stated leaves out that the block
  builder must succeed: a method above the threshold whose block builder fails yields
  \<open>kAnalysisInvalidBytecode\<close>, because the block builder runs before the skip decision.
\<close>

theorem huge_method_boundary:
  fixes b :: HGraphBuilder and s :: BuildState and cg :: CodeGenerator
  defines "c \<equiv> collaborators b"
  defines "g0 \<equiv> (graph s)\<lparr>number_of_vregs := unat (RegistersSize (code_item_accessor b)),
                           number_of_in_vregs := unat (InsSize (code_item_accessor b))\<rparr>"
  defines "g1 \<equiv> snd (block_builder_Build c g0)"
  defines "code_units \<equiv> unat (InsnsSizeInCodeUnits (code_item_accessor b))"
  assumes pre: "kIsDebugBuild c \<longrightarrow> HasCodeItem (code_item_accessor b) \<and> blocks (graph s) = []"
    and codegen: "code_generator b = Some cg"
    and filter: "GetCompilerFilter (GetCompilerOptions cg) \<noteq> kEverything"
    and huge: "IsHugeMethod c = IsHugeMethod_spec"
  shows "(code_units = huge_method_threshold (GetCompilerOptions cg) \<longrightarrow>
            SkipCompilation b s = (False, s)
            \<and> (fst (block_builder_Build c g0) \<longrightarrow>
                 (\<exists>r s' rest. BuildGraph b s = Inr (r, s')
                    \<and> stage_log s' =
                        stage_log s @
                        (StageBlockBuilder, g0) # (StageSkipCompilation, g1)
                          # (StageDominatorTree, g1) # rest)))
         \<and> (code_units = huge_method_threshold (GetCompilerOptions cg) + 1
              \<and> fst (block_builder_Build c g0) \<longrightarrow>
                (\<exists>s'. BuildGraph b s = Inr (kAnalysisSkipped, s')
                   \<and> stage_log s' =
                       stage_log s @ [(StageBlockBuilder, g0), (StageSkipCompilation, g1)]))"
proof -
  have skip: "fst (SkipCompilation b s) \<longleftrightarrow>
                huge_method_threshold (GetCompilerOptions cg) < code_units"
    and same: "\<not> fst (SkipCompilation b s) \<Longrightarrow> SkipCompilation b s = (False, s)"
    using codegen filter huge
    by (auto simp: SkipCompilation_def Let_def c_def code_units_def IsHugeMethod_spec_def
        split: if_splits)
  from BuildGraph_outcome [OF pre [unfolded c_def]] skip same show ?thesis
    unfolding c_def g0_def g1_def
    by (auto split: if_splits)
qed

theorem huge_method_boundary_witness:
  "HasCodeItem (code_item_accessor
      (example_builder 11 (stub_stages True True [] kAnalysisSuccess True kAnalysisSuccess)))
   \<and> blocks (graph fresh_state) = []
   \<and> GetCompilerFilter \<lparr>GetCompilerFilter = kOtherFilter 0, huge_method_threshold = 10\<rparr>
       \<noteq> kEverything
   \<and> IsHugeMethod (stub_stages True True [] kAnalysisSuccess True kAnalysisSuccess)
       = IsHugeMethod_spec
   \<and> SkipCompilation
       (example_builder 10 (stub_stages True True [] kAnalysisSuccess True kAnalysisSuccess))
       fresh_state = (False, fresh_state)
   \<and> (\<exists>s'. BuildGraph
              (example_builder 10 (stub_stages True True [] kAnalysisSuccess True kAnalysisSuccess))
              fresh_state = Inr (kAnalysisSuccess, s'))
   \<and> (\<exists>s'. BuildGraph
              (example_builder 11 (stub_stages True True [] kAnalysisSuccess True kAnalysisSuccess))
              fresh_state = Inr (kAnalysisSkipped, s'))"
  using huge_method_boundary
    [of "example_builder 10 (stub_stages True True [] kAnalysisSuccess True kAnalysisSuccess)"
        fresh_state
        "\<lparr>GetCompilerOptions =
            \<lparr>GetCompilerFilter = kOtherFilter 0, huge_method_threshold = 10\<rparr>\<rparr>"]
    huge_method_boundary
    [of "example_builder 11 (stub_stages True True [] kAnalysisSuccess True kAnalysisSuccess)"
        fresh_state
        "\<lparr>GetCompilerOptions =
            \<lparr>GetCompilerFilter = kOtherFilter 0, huge_method_threshold = 10\<rparr>\<rparr>"]
  by (simp add: example_builder_def stub_stages_def fresh_state_def SkipCompilation_def
      IsHugeMethod_spec_def BuildGraph_def Let_def run_stage_def enter_stage_def
      SetNumberOfVRegs_def SetNumberOfInVRegs_def MaybeRecordStat_def)

theorem huge_method_malformed_counterexample:
  "HasCodeItem (code_item_accessor
      (example_builder 11
         (stub_stages False False [] kAnalysisSuccess True kAnalysisSuccess)))
   \<and> code_generator
       (example_builder 11
          (stub_stages False False [] kAnalysisSuccess True kAnalysisSuccess)) =
       Some \<lparr>GetCompilerOptions =
               \<lparr>GetCompilerFilter = kOtherFilter 0, huge_method_threshold = 10\<rparr>\<rparr>
   \<and> kOtherFilter 0 \<noteq> kEverything
   \<and> unat (InsnsSizeInCodeUnits (code_item_accessor
       (example_builder 11
          (stub_stages False False [] kAnalysisSuccess True kAnalysisSuccess)))) = 10 + 1
   \<and> BuildGraph
       (example_builder 11 (stub_stages False False [] kAnalysisSuccess True kAnalysisSuccess))
       fresh_state =
       Inr (kAnalysisInvalidBytecode,
            fresh_state\<lparr>graph := (graph fresh_state)\<lparr>number_of_vregs := 4, number_of_in_vregs := 2,
                                                 entry_block := Some 0\<rparr>,
                        stage_log :=
                          [(StageBlockBuilder,
                            (graph fresh_state)\<lparr>number_of_vregs := 4,
                                                 number_of_in_vregs := 2\<rparr>)]\<rparr>)
   \<and> kAnalysisInvalidBytecode \<noteq> kAnalysisSkipped"
  by (simp add: example_builder_def stub_stages_def fresh_state_def BuildGraph_def Let_def
      run_stage_def enter_stage_def SetNumberOfVRegs_def SetNumberOfInVRegs_def)

subsection \<open>A reference and a primitive meeting in one phi\<close>

lemma input_types_mem: "Some x \<in> set vs \<Longrightarrow> value_type x \<in> set (input_types vs)"
  by (force simp: input_types_def List.map_filter_def)

lemma two_members_length:
  assumes "p \<in> set xs" and "q \<in> set xs" and "p \<noteq> q"
  shows "2 \<le> length xs"
proof (cases xs)
  case Nil
  with assms show ?thesis by simp
next
  case (Cons a ys)
  with assms show ?thesis by (cases ys) auto
qed

lemma values_differ_members:
  assumes "x \<in> set vs" and "y \<in> set vs" and "x \<noteq> y"
  shows "values_differ vs"
  using assms unfolding values_differ_def list_ex_iff by metis

lemma BuildSsa_spec_conflict:
  assumes blk: "blk \<in> set (blocks g)"
    and p: "p \<in> set (predecessors blk)" and q: "q \<in> set (predecessors blk)"
    and v: "v < number_of_vregs g"
    and x: "local_at_end g p v = Some x" "value_type x = kReference"
    and y: "local_at_end g q v = Some y" "is_primitive (value_type y)"
  shows "fst (BuildSsa_spec g) = kAnalysisInvalidBytecode"
proof -
  let ?vs = "incoming_values g blk v"
  let ?phi = "\<lparr>phi_vreg = v, phi_inputs = ?vs, phi_type = resolve_phi_type ?vs\<rparr>"
  have xin: "Some x \<in> set ?vs" and yin: "Some y \<in> set ?vs"
    using p q x(1) y(1) by (force simp: incoming_values_def image_iff)+
  have neq: "x \<noteq> y"
    using x(2) y(2) by (auto simp: is_primitive_def)
  then have "p \<noteq> q"
    using x(1) y(1) by auto
  then have two: "2 \<le> length (predecessors blk)"
    using p q by (rule two_members_length [rotated 2])
  have "values_differ ?vs"
    using xin yin neq by (auto intro: values_differ_members)
  then have phi: "?phi \<in> set (make_phis g blk)"
    using two v by (simp add: make_phis_def image_iff)
  have "kReference \<in> set (input_types ?vs)"
    using input_types_mem [OF xin] x(2) by simp
  moreover have "list_ex is_primitive (input_types ?vs)"
    using input_types_mem [OF yin] y(2) by (auto simp: list_ex_iff)
  ultimately have "invalid_phi ?phi"
    by (simp add: invalid_phi_def mixes_reference_and_primitive_def)
  with phi blk have
    "list_ex (\<lambda>b. list_ex invalid_phi (phis b))
       (map (\<lambda>b. b\<lparr>phis := make_phis g b\<rparr>) (blocks g))"
    by (auto simp: list_ex_iff intro!: bexI [of _ blk] bexI [of _ ?phi])
  then show ?thesis
    by (simp add: BuildSsa_spec_def Let_def)
qed

text \<open>
  C4. With the SSA builder as the spec describes it: if a run of \<open>BuildGraph\<close> reaches the
  SSA builder with a graph in which a block has two predecessors, one leaving a reference in
  a vreg and the other a primitive value in the same vreg, the run returns
  \<open>kAnalysisInvalidBytecode\<close>.
\<close>

theorem reference_primitive_merge_rejected:
  fixes b :: HGraphBuilder and s s' :: BuildState and r :: GraphAnalysisResult
  assumes run: "BuildGraph b s = Inr (r, s')"
    and ssa: "ssa_builder_BuildSsa (collaborators b) = BuildSsa_spec"
    and reached: "(StageSsaBuilder, g) \<in> set (drop (length (stage_log s)) (stage_log s'))"
    and blk: "blk \<in> set (blocks g)"
    and p: "p \<in> set (predecessors blk)" and q: "q \<in> set (predecessors blk)"
    and v: "v < number_of_vregs g"
    and x: "local_at_end g p v = Some x" "value_type x = kReference"
    and y: "local_at_end g q v = Some y" "is_primitive (value_type y)"
  shows "r = kAnalysisInvalidBytecode"
proof -
  have pre: "kIsDebugBuild (collaborators b) \<longrightarrow>
               HasCodeItem (code_item_accessor b) \<and> blocks (graph s) = []"
    using run by (rule BuildGraph_Inr_pre)
  have "fst (BuildSsa_spec g) = kAnalysisInvalidBytecode"
    using blk p q v x y by (rule BuildSsa_spec_conflict)
  with BuildGraph_outcome [OF pre] run reached show ?thesis
    by (auto simp: ssa split: if_splits)
qed

theorem reference_primitive_merge_rejected_witness:
  "ssa_builder_BuildSsa (collaborators diamond_builder) = BuildSsa_spec
   \<and> diamond_blocks ! 3 \<in> set (blocks diamond_graph)
   \<and> 1 \<in> set (predecessors (diamond_blocks ! 3))
   \<and> 2 \<in> set (predecessors (diamond_blocks ! 3))
   \<and> 0 < number_of_vregs diamond_graph
   \<and> local_at_end diamond_graph 1 0 = Some \<lparr>defined_by = 1, value_type = kReference\<rparr>
   \<and> local_at_end diamond_graph 2 0 = Some \<lparr>defined_by = 2, value_type = kIntLike\<rparr>
   \<and> is_primitive kIntLike
   \<and> (\<exists>s'. BuildGraph diamond_builder fresh_state = Inr (kAnalysisInvalidBytecode, s')
           \<and> (StageSsaBuilder, diamond_graph) \<in> set (stage_log s'))"
proof -
  have pre: "kIsDebugBuild (collaborators diamond_builder) \<longrightarrow>
               HasCodeItem (code_item_accessor diamond_builder) \<and> blocks (graph fresh_state) = []"
    by (simp add: diamond_builder_def example_builder_def fresh_state_def)
  have skip: "\<not> fst (SkipCompilation diamond_builder fresh_state)"
    by (simp add: diamond_builder_def example_builder_def stub_stages_def SkipCompilation_def
        IsHugeMethod_spec_def)
  from BuildGraph_outcome [OF pre] obtain r s' where
    run: "BuildGraph diamond_builder fresh_state = Inr (r, s')"
    and log: "stage_log s' = stage_log fresh_state @
                [(StageBlockBuilder,
                  (graph fresh_state)\<lparr>number_of_vregs := 4, number_of_in_vregs := 2\<rparr>),
                 (StageSkipCompilation, diamond_graph), (StageDominatorTree, diamond_graph),
                 (StageInstructionBuilder, diamond_graph), (StageSsaBuilder, diamond_graph)]"
    using skip
    by (auto simp: diamond_builder_def example_builder_def stub_stages_def fresh_state_def
        diamond_graph_def)
  have hyps:
    "ssa_builder_BuildSsa (collaborators diamond_builder) = BuildSsa_spec"
    "diamond_blocks ! 3 \<in> set (blocks diamond_graph)"
    "1 \<in> set (predecessors (diamond_blocks ! 3))"
    "2 \<in> set (predecessors (diamond_blocks ! 3))"
    "0 < number_of_vregs diamond_graph"
    "local_at_end diamond_graph 1 0 = Some \<lparr>defined_by = 1, value_type = kReference\<rparr>"
    "local_at_end diamond_graph 2 0 = Some \<lparr>defined_by = 2, value_type = kIntLike\<rparr>"
    "is_primitive kIntLike"
    by (simp_all add: diamond_builder_def example_builder_def stub_stages_def diamond_graph_def
        diamond_blocks_def new_block_def local_at_end_def find_block_def is_primitive_def)
  have reached: "(StageSsaBuilder, diamond_graph)
                   \<in> set (drop (length (stage_log fresh_state)) (stage_log s'))"
    using log by simp
  have "r = kAnalysisInvalidBytecode"
    using reference_primitive_merge_rejected
      [OF run hyps(1) reached hyps(2) hyps(3) hyps(4) hyps(5) hyps(6) _ hyps(7)] hyps(8)
    by simp
  with run log hyps show ?thesis
    by simp
qed

subsection \<open>The intrinsic graph\<close>

lemma BuildIntrinsicGraph_outcome:
  fixes b :: HGraphBuilder and s :: BuildState
  defines "c \<equiv> collaborators b"
  defines "g0 \<equiv> (graph s)\<lparr>number_of_vregs := return_vregs + num_arg_vregs b,
                           number_of_in_vregs := num_arg_vregs b\<rparr>"
  defines "g1 \<equiv> block_builder_BuildIntrinsic c g0"
  defines "g2 \<equiv> snd (BuildDominatorTree c g1)"
  defines "g3 \<equiv> instruction_builder_BuildIntrinsic c g2"
  defines "g4 \<equiv> snd (ssa_builder_BuildSsa c g3)"
  assumes pre: "kIsDebugBuild c \<longrightarrow> \<not> HasCodeItem (code_item_accessor b) \<and> blocks (graph s) = []"
    and sh: "shorty b \<noteq> []"
    and dchecks: "kIsDebugBuild c \<longrightarrow> fst (BuildDominatorTree c g1) = kAnalysisSuccess
                    \<and> fst (ssa_builder_BuildSsa c g3) = kAnalysisSuccess"
  shows "\<exists>s'. BuildIntrinsicGraph b s = Inr s' \<and> graph s' = g4 \<and>
           stage_log s' = stage_log s @
             [(StageBlockBuilder, g0), (StageDominatorTree, g1),
              (StageInstructionBuilder, g2), (StageSsaBuilder, g3)]"
  using pre sh dchecks unfolding BuildIntrinsicGraph_def Let_def case_prod_beta c_def[symmetric]
  by (auto simp: stage_simps g0_def g1_def g2_def g3_def g4_def prod_eq_iff)

lemma BuildIntrinsicGraph_Inr_first_stage:
  assumes "BuildIntrinsicGraph b s = Inr s'"
  shows "\<exists>rest. stage_log s' =
           stage_log s @
           (StageBlockBuilder,
            (graph s)\<lparr>number_of_vregs := return_vregs + num_arg_vregs b,
                      number_of_in_vregs := num_arg_vregs b\<rparr>) # rest"
  using assms unfolding BuildIntrinsicGraph_def Let_def case_prod_beta
  by (auto simp: stage_simps split: if_splits)

lemma BuildIntrinsic_spec_blocks:
  "blocks g = [] \<Longrightarrow>
     blocks (BuildIntrinsic_spec g) = [new_block 0 [] [1], new_block 1 [0] [2], new_block 2 [1] []]
     \<and> entry_block (BuildIntrinsic_spec g) = Some 0"
  by (simp add: BuildIntrinsic_spec_def numeral_2_eq_2)

lemma intrinsic_reachable:
  assumes "blocks g = [new_block 0 [] [1], new_block 1 [0] [2], new_block 2 [1] []]"
    and "entry_block g = Some 0"
  shows "set (reachable_blocks g) = {0, 1, 2}"
  using assms
  by (simp add: reachable_blocks_def reach_step_def successors_of_def find_block_def new_block_def
      insert_commute)

lemma intrinsic_not_malformed:
  assumes "blocks g = [new_block 0 [] [1], new_block 1 [0] [2], new_block 2 [1] []]"
    and "entry_block g = Some 0"
  shows "\<not> malformed_skeleton g"
  using assms
  by (simp add: malformed_skeleton_def find_block_def new_block_def)

lemma intrinsic_remove_dead_blocks:
  assumes "blocks g = [new_block 0 [] [1], new_block 1 [0] [2], new_block 2 [1] []]"
    and "entry_block g = Some 0"
  shows "remove_dead_blocks g = g"
  using assms intrinsic_reachable[OF assms]
  by (simp add: remove_dead_blocks_def Let_def new_block_def)

lemma intrinsic_BuildDominatorTree_spec:
  assumes "blocks g = []"
  shows "BuildDominatorTree_spec (BuildIntrinsic_spec g) = (kAnalysisSuccess, BuildIntrinsic_spec g)"
proof -
  note sk = BuildIntrinsic_spec_blocks [OF assms]
  have "\<not> malformed_skeleton (BuildIntrinsic_spec g)"
    using sk by (intro intrinsic_not_malformed) simp_all
  moreover have "remove_dead_blocks (BuildIntrinsic_spec g) = BuildIntrinsic_spec g"
    using sk by (intro intrinsic_remove_dead_blocks) simp_all
  ultimately show ?thesis
    by (simp add: BuildDominatorTree_spec_def)
qed

lemma BuildIntrinsic_spec_skeleton:
  "blocks g = [] \<Longrightarrow>
     skeleton_of (BuildIntrinsic_spec g) = ([(0, [], [1]), (1, [0], [2]), (2, [1], [])], Some 0)"
  by (simp add: BuildIntrinsic_spec_blocks skeleton_of_def new_block_def)

lemma BuildIntrinsic_spec_vregs:
  "number_of_vregs (BuildIntrinsic_spec g) = number_of_vregs g
   \<and> number_of_in_vregs (BuildIntrinsic_spec g) = number_of_in_vregs g"
  by (simp add: BuildIntrinsic_spec_def Let_def)

lemma make_phis_single_predecessor:
  "length (predecessors blk) < 2 \<Longrightarrow> make_phis g blk = []"
  by (simp add: make_phis_def)

lemma BuildSsa_spec_no_merge:
  assumes "\<forall>blk \<in> set (blocks g). length (predecessors blk) < 2"
  shows "fst (BuildSsa_spec g) = kAnalysisSuccess"
proof -
  have "map (\<lambda>blk. blk\<lparr>phis := make_phis g blk\<rparr>) (blocks g)
          = map (\<lambda>blk. blk\<lparr>phis := []\<rparr>) (blocks g)"
    using assms by (simp add: make_phis_single_predecessor)
  then show "fst (BuildSsa_spec g) = kAnalysisSuccess"
    by (simp add: BuildSsa_spec_def Let_def list_ex_iff)
qed

lemma BuildSsa_spec_skeleton: "skeleton_of (snd (BuildSsa_spec g)) = skeleton_of g"
  by (simp add: BuildSsa_spec_def Let_def skeleton_of_def comp_def)

lemma BuildSsa_spec_vregs:
  "number_of_vregs (snd (BuildSsa_spec g)) = number_of_vregs g
   \<and> number_of_in_vregs (snd (BuildSsa_spec g)) = number_of_in_vregs g"
  by (simp add: BuildSsa_spec_def Let_def)

lemma skeleton_single_predecessors:
  assumes "skeleton_of g = ([(0, [], [1]), (1, [0], [2]), (2, [1], [])], e)"
  shows "\<forall>blk \<in> set (blocks g). length (predecessors blk) < 2"
proof
  fix blk assume "blk \<in> set (blocks g)"
  then have "(block_id blk, predecessors blk, successors blk) \<in> set (fst (skeleton_of g))"
    by (auto simp: skeleton_of_def)
  then show "length (predecessors blk) < 2"
    unfolding assms by auto
qed

text \<open>The intrinsic pipeline over the stages as the spec describes them.\<close>

lemma intrinsic_pipeline_spec:
  fixes f :: "HGraph \<Rightarrow> HGraph" and g0 :: HGraph
  defines "g1 \<equiv> BuildIntrinsic_spec g0"
  defines "g3 \<equiv> f (snd (BuildDominatorTree_spec g1))"
  defines "g4 \<equiv> snd (BuildSsa_spec g3)"
  assumes empty: "blocks g0 = []" and keeps: "keeps_skeleton f"
  shows "fst (BuildDominatorTree_spec g1) = kAnalysisSuccess"
    and "fst (BuildSsa_spec g3) = kAnalysisSuccess"
    and "skeleton_of g4 = ([(0, [], [1]), (1, [0], [2]), (2, [1], [])], Some 0)"
    and "number_of_vregs g4 = number_of_vregs g0"
    and "number_of_in_vregs g4 = number_of_in_vregs g0"
proof -
  have dom: "BuildDominatorTree_spec g1 = (kAnalysisSuccess, g1)"
    unfolding g1_def using empty by (rule intrinsic_BuildDominatorTree_spec)
  then show "fst (BuildDominatorTree_spec g1) = kAnalysisSuccess"
    by simp
  have g3: "g3 = f g1"
    by (simp add: g3_def dom)
  have sk3: "skeleton_of g3 = ([(0, [], [1]), (1, [0], [2]), (2, [1], [])], Some 0)"
    using keeps BuildIntrinsic_spec_skeleton [OF empty]
    by (simp add: g3 keeps_skeleton_def g1_def)
  then have "\<forall>blk \<in> set (blocks g3). length (predecessors blk) < 2"
    by (rule skeleton_single_predecessors)
  then show "fst (BuildSsa_spec g3) = kAnalysisSuccess"
    by (rule BuildSsa_spec_no_merge)
  show "skeleton_of g4 = ([(0, [], [1]), (1, [0], [2]), (2, [1], [])], Some 0)"
    by (simp add: g4_def BuildSsa_spec_skeleton sk3)
  show "number_of_vregs g4 = number_of_vregs g0"
    using keeps by (simp add: g4_def g3 g1_def BuildSsa_spec_vregs keeps_skeleton_def
        BuildIntrinsic_spec_vregs)
  show "number_of_in_vregs g4 = number_of_in_vregs g0"
    using keeps by (simp add: g4_def g3 g1_def BuildSsa_spec_vregs keeps_skeleton_def
        BuildIntrinsic_spec_vregs)
qed

lemma keeps_skeleton_id: "keeps_skeleton (\<lambda>g. g)"
  by (simp add: keeps_skeleton_def)

lemma num_arg_vregs_III:
  "shorty b = ''III'' \<Longrightarrow> \<not> IsStatic b \<Longrightarrow> num_arg_vregs b = 3"
  by (simp add: num_arg_vregs_def num_args_def num_wide_args_def strlen_def std_count_def)

lemma count_wide:
  "length (filter (\<lambda>x. x = CHR ''J'') cs) + length (filter (\<lambda>x. x = CHR ''D'') cs)
     = length (filter (\<lambda>ch. ch = CHR ''J'' \<or> ch = CHR ''D'') cs)"
  by (induction cs) auto

lemma sum_vreg_slots:
  "sum_list (map vreg_slots_spec cs)
     = length cs + length (filter (\<lambda>ch. ch = CHR ''J'' \<or> ch = CHR ''D'') cs)"
  by (induction cs) (auto simp: vreg_slots_spec_def)

lemma take_strlen: "take (strlen cs) cs = takeWhile (\<lambda>ch. ch \<noteq> CHR 0x00) cs"
  by (simp add: strlen_def takeWhile_eq_take [symmetric])

text \<open>
  C6. In a run of \<open>BuildIntrinsicGraph\<close> that returns, the graph handed to the block
  builder has \<open>num_args + num_wide_args + (static ? 0 : 1) + 2\<close> vregs, and two fewer
  incoming vregs. Here \<open>num_args\<close> is the number of argument characters of the shorty,
  those after its first character, and \<open>num_wide_args\<close> the number of \<open>J\<close> and \<open>D\<close>
  among them, so that the vreg count gives each wide argument two slots, every other
  argument one slot, the receiver of a method that is not static one slot, and the return
  value two slots. The return type, the first character of the shorty, plays no part.
\<close>

theorem intrinsic_vreg_layout:
  fixes b :: HGraphBuilder and s s' :: BuildState
  defines "args \<equiv> takeWhile (\<lambda>ch. ch \<noteq> CHR 0x00) (tl (shorty b))"
  assumes run: "BuildIntrinsicGraph b s = Inr s'"
  shows "\<exists>g0 rest. stage_log s' = stage_log s @ (StageBlockBuilder, g0) # rest
           \<and> number_of_vregs g0 =
               num_args (shorty b) + num_wide_args (shorty b) + (if IsStatic b then 0 else 1) + 2
           \<and> number_of_in_vregs g0 = number_of_vregs g0 - 2
           \<and> num_args (shorty b) = length args
           \<and> num_wide_args (shorty b)
               = length (filter (\<lambda>ch. ch = CHR ''J'' \<or> ch = CHR ''D'') args)
           \<and> number_of_vregs g0 =
               sum_list (map vreg_slots_spec args) + (if IsStatic b then 0 else 1) + 2"
proof -
  have args: "take (num_args (shorty b)) (tl (shorty b)) = args"
    by (simp add: args_def num_args_def take_strlen)
  have len: "num_args (shorty b) = length args"
    by (simp add: args_def num_args_def strlen_def)
  have wide: "num_wide_args (shorty b)
                = length (filter (\<lambda>ch. ch = CHR ''J'' \<or> ch = CHR ''D'') args)"
    by (simp add: num_wide_args_def std_count_def args count_wide)
  from BuildIntrinsicGraph_Inr_first_stage [OF run] len wide show ?thesis
    by (auto simp: num_arg_vregs_def return_vregs_def sum_vreg_slots)
qed

theorem intrinsic_vreg_layout_witness:
  "\<exists>s' g0 rest.
      BuildIntrinsicGraph
        ((intrinsic_builder True)\<lparr>shorty := ''VJID'', IsStatic := True\<rparr>) fresh_state = Inr s'
      \<and> stage_log s' = (StageBlockBuilder, g0) # rest
      \<and> number_of_vregs g0 = 7 \<and> number_of_in_vregs g0 = 5"
proof -
  let ?b = "(intrinsic_builder True)\<lparr>shorty := ''VJID'', IsStatic := True\<rparr>"
  have hyps:
    "\<not> HasCodeItem (code_item_accessor ?b)"
    "blocks (graph fresh_state) = []"
    "shorty ?b \<noteq> []"
    "block_builder_BuildIntrinsic (collaborators ?b) = BuildIntrinsic_spec"
    "BuildDominatorTree (collaborators ?b) = BuildDominatorTree_spec"
    "ssa_builder_BuildSsa (collaborators ?b) = BuildSsa_spec"
    "keeps_skeleton (instruction_builder_BuildIntrinsic (collaborators ?b))"
    by (simp_all add: intrinsic_builder_def stub_stages_def fresh_state_def keeps_skeleton_def)
  have ok: "fst (BuildSsa_spec (snd (BuildDominatorTree_spec (BuildIntrinsic_spec g)))) = kAnalysisSuccess"
    if "blocks g = []" for g
    using intrinsic_pipeline_spec(2) [OF that keeps_skeleton_id] by simp
  have "\<exists>s'. BuildIntrinsicGraph ?b fresh_state = Inr s'"
    using BuildIntrinsicGraph_outcome [of ?b fresh_state] hyps
      intrinsic_BuildDominatorTree_spec ok
    by (auto simp: intrinsic_builder_def stub_stages_def)
  then obtain s' where run: "BuildIntrinsicGraph ?b fresh_state = Inr s'" ..
  have counts: "num_args (shorty ?b) = 3" "num_wide_args (shorty ?b) = 2"
    by (simp_all add: num_args_def num_wide_args_def strlen_def std_count_def)
  from intrinsic_vreg_layout [OF run] counts run show ?thesis
    by (auto simp: fresh_state_def intrinsic_builder_def)
qed

text \<open>
  C5. For a method without code item, with shorty \<open>III\<close> (signature \<open>(II)I\<close>) and not
  static, built with the stages as the spec describes them, \<open>BuildIntrinsicGraph\<close>
  returns a graph with 5 vregs, 3 of them incoming, and three blocks: entry, body, exit,
  in a chain.
\<close>

theorem intrinsic_II_I_graph:
  fixes b :: HGraphBuilder and s :: BuildState
  defines "c \<equiv> collaborators b"
  assumes sh: "shorty b = ''III''" and inst: "\<not> IsStatic b"
    and nocode: "\<not> HasCodeItem (code_item_accessor b)"
    and empty: "blocks (graph s) = []"
    and bb: "block_builder_BuildIntrinsic c = BuildIntrinsic_spec"
    and dom: "BuildDominatorTree c = BuildDominatorTree_spec"
    and ssa: "ssa_builder_BuildSsa c = BuildSsa_spec"
    and ib: "keeps_skeleton (instruction_builder_BuildIntrinsic c)"
  shows "\<exists>s'. BuildIntrinsicGraph b s = Inr s'
           \<and> number_of_vregs (graph s') = 5
           \<and> number_of_in_vregs (graph s') = 3
           \<and> skeleton_of (graph s') = ([(0, [], [1]), (1, [0], [2]), (2, [1], [])], Some 0)"
proof -
  let ?g0 = "(graph s)\<lparr>number_of_vregs := return_vregs + num_arg_vregs b,
                        number_of_in_vregs := num_arg_vregs b\<rparr>"
  have e0: "blocks ?g0 = []"
    using empty by simp
  note spec = intrinsic_pipeline_spec [OF e0 ib]
  have "\<exists>s'. BuildIntrinsicGraph b s = Inr s' \<and>
          graph s' = snd (ssa_builder_BuildSsa (collaborators b)
                       (instruction_builder_BuildIntrinsic (collaborators b)
                         (snd (BuildDominatorTree (collaborators b)
                           (block_builder_BuildIntrinsic (collaborators b) ?g0)))))"
    using BuildIntrinsicGraph_outcome [of b s] nocode empty sh spec(1,2)
    unfolding c_def [symmetric] bb dom ssa by auto
  then show ?thesis
    using spec(3,4,5) num_arg_vregs_III [OF sh inst]
    unfolding c_def [symmetric] bb dom ssa by (auto simp: return_vregs_def)
qed

theorem intrinsic_II_I_graph_witness:
  "shorty (intrinsic_builder True) = ''III''
   \<and> \<not> IsStatic (intrinsic_builder True)
   \<and> \<not> HasCodeItem (code_item_accessor (intrinsic_builder True))
   \<and> blocks (graph fresh_state) = []
   \<and> block_builder_BuildIntrinsic (collaborators (intrinsic_builder True)) = BuildIntrinsic_spec
   \<and> BuildDominatorTree (collaborators (intrinsic_builder True)) = BuildDominatorTree_spec
   \<and> ssa_builder_BuildSsa (collaborators (intrinsic_builder True)) = BuildSsa_spec
   \<and> keeps_skeleton (instruction_builder_BuildIntrinsic (collaborators (intrinsic_builder True)))
   \<and> (\<exists>s'. BuildIntrinsicGraph (intrinsic_builder True) fresh_state = Inr s'
           \<and> number_of_vregs (graph s') = 5
           \<and> number_of_in_vregs (graph s') = 3
           \<and> length (blocks (graph s')) = 3)"
proof -
  have hyps:
    "shorty (intrinsic_builder True) = ''III''"
    "\<not> IsStatic (intrinsic_builder True)"
    "\<not> HasCodeItem (code_item_accessor (intrinsic_builder True))"
    "blocks (graph fresh_state) = []"
    "block_builder_BuildIntrinsic (collaborators (intrinsic_builder True)) = BuildIntrinsic_spec"
    "BuildDominatorTree (collaborators (intrinsic_builder True)) = BuildDominatorTree_spec"
    "ssa_builder_BuildSsa (collaborators (intrinsic_builder True)) = BuildSsa_spec"
    "keeps_skeleton (instruction_builder_BuildIntrinsic (collaborators (intrinsic_builder True)))"
    by (simp_all add: intrinsic_builder_def stub_stages_def fresh_state_def keeps_skeleton_def)
  from intrinsic_II_I_graph [OF hyps] obtain s' where
    "BuildIntrinsicGraph (intrinsic_builder True) fresh_state = Inr s'"
    "number_of_vregs (graph s') = 5" "number_of_in_vregs (graph s') = 3"
    "skeleton_of (graph s') = ([(0, [], [1]), (1, [0], [2]), (2, [1], [])], Some 0)"
    by blast
  moreover from this(4) have "length (blocks (graph s')) = 3"
    by (auto simp: skeleton_of_def dest: arg_cong [where f = length])
  ultimately show ?thesis
    using hyps by blast
qed

text \<open>
  C10. For a method without code item and a graph without blocks, with the stages as the
  spec describes them, the dominator analysis and the SSA builder both return
  \<open>kAnalysisSuccess\<close> on the intrinsic skeleton, so the two debug checks of
  \<open>BuildIntrinsicGraph\<close> hold and the function returns after its four stages, in debug
  and in release builds alike. What it returns is the state alone: its type has no result
  code.
\<close>

theorem intrinsic_build_infallible:
  fixes b :: HGraphBuilder and s :: BuildState
  defines "c \<equiv> collaborators b"
  defines "g1 \<equiv> block_builder_BuildIntrinsic c
                   ((graph s)\<lparr>number_of_vregs := return_vregs + num_arg_vregs b,
                             number_of_in_vregs := num_arg_vregs b\<rparr>)"
  defines "g3 \<equiv> instruction_builder_BuildIntrinsic c (snd (BuildDominatorTree c g1))"
  assumes nocode: "\<not> HasCodeItem (code_item_accessor b)"
    and empty: "blocks (graph s) = []"
    and sh: "shorty b \<noteq> []"
    and bb: "block_builder_BuildIntrinsic c = BuildIntrinsic_spec"
    and dom: "BuildDominatorTree c = BuildDominatorTree_spec"
    and ssa: "ssa_builder_BuildSsa c = BuildSsa_spec"
    and ib: "keeps_skeleton (instruction_builder_BuildIntrinsic c)"
  shows "fst (BuildDominatorTree c g1) = kAnalysisSuccess
         \<and> fst (ssa_builder_BuildSsa c g3) = kAnalysisSuccess
         \<and> (\<exists>s'. BuildIntrinsicGraph b s = Inr s'
                \<and> map fst (drop (length (stage_log s)) (stage_log s')) =
                    [StageBlockBuilder, StageDominatorTree, StageInstructionBuilder,
                     StageSsaBuilder])"
proof -
  let ?g0 = "(graph s)\<lparr>number_of_vregs := return_vregs + num_arg_vregs b,
                        number_of_in_vregs := num_arg_vregs b\<rparr>"
  have e0: "blocks ?g0 = []"
    using empty by simp
  note spec = intrinsic_pipeline_spec [OF e0 ib]
  have ok: "fst (BuildDominatorTree c g1) = kAnalysisSuccess"
    "fst (ssa_builder_BuildSsa c g3) = kAnalysisSuccess"
    using spec(1,2) unfolding g1_def g3_def bb dom ssa by simp_all
  have "\<exists>s'. BuildIntrinsicGraph b s = Inr s' \<and>
          stage_log s' = stage_log s @
            [(StageBlockBuilder, ?g0), (StageDominatorTree, g1),
             (StageInstructionBuilder, snd (BuildDominatorTree c g1)), (StageSsaBuilder, g3)]"
    using BuildIntrinsicGraph_outcome [of b s] nocode empty sh ok
    unfolding c_def [symmetric] g1_def g3_def by auto
  with ok show ?thesis
    by auto
qed

theorem intrinsic_build_infallible_witness:
  "\<not> HasCodeItem (code_item_accessor (intrinsic_builder True))
   \<and> blocks (graph fresh_state) = []
   \<and> shorty (intrinsic_builder True) \<noteq> []
   \<and> kIsDebugBuild (collaborators (intrinsic_builder True))
   \<and> block_builder_BuildIntrinsic (collaborators (intrinsic_builder True)) = BuildIntrinsic_spec
   \<and> BuildDominatorTree (collaborators (intrinsic_builder True)) = BuildDominatorTree_spec
   \<and> ssa_builder_BuildSsa (collaborators (intrinsic_builder True)) = BuildSsa_spec
   \<and> keeps_skeleton (instruction_builder_BuildIntrinsic (collaborators (intrinsic_builder True)))
   \<and> (\<exists>s'. BuildIntrinsicGraph (intrinsic_builder True) fresh_state = Inr s'
           \<and> map fst (stage_log s') =
               [StageBlockBuilder, StageDominatorTree, StageInstructionBuilder, StageSsaBuilder])"
proof -
  have hyps:
    "\<not> HasCodeItem (code_item_accessor (intrinsic_builder True))"
    "blocks (graph fresh_state) = []"
    "shorty (intrinsic_builder True) \<noteq> []"
    "block_builder_BuildIntrinsic (collaborators (intrinsic_builder True)) = BuildIntrinsic_spec"
    "BuildDominatorTree (collaborators (intrinsic_builder True)) = BuildDominatorTree_spec"
    "ssa_builder_BuildSsa (collaborators (intrinsic_builder True)) = BuildSsa_spec"
    "keeps_skeleton (instruction_builder_BuildIntrinsic (collaborators (intrinsic_builder True)))"
    by (simp_all add: intrinsic_builder_def stub_stages_def fresh_state_def keeps_skeleton_def)
  have debug: "kIsDebugBuild (collaborators (intrinsic_builder True))"
    by (simp add: intrinsic_builder_def stub_stages_def)
  have log: "stage_log fresh_state = []"
    by (simp add: fresh_state_def)
  from intrinsic_build_infallible [OF hyps] hyps debug show ?thesis
    by (simp add: log)
qed

end
